theory Spec2Isabelle
  imports Main "HOL-Library.Word"
begin

unbundle bit_operations_syntax

section \<open>Machine words and control lines\<close>

text \<open>
  The simulator works on three unsigned integer types: \<open>BYTE\<close> (8 bits), \<open>WORD\<close>
  (16 bits) and \<open>DWORD\<close> (32 bits). The control bus is a \<open>DWORD\<close> whose bits name the
  micro-operations; the data bus is a \<open>WORD\<close>.
\<close>

type_synonym BYTE = "8 word"
type_synonym WORD = "16 word"
type_synonym DWORD = "32 word"

definition GPR_M :: DWORD where "GPR_M = 0x00000001"
definition INCPC :: DWORD where "INCPC = 0x00000002"
definition GPR_PC :: DWORD where "GPR_PC = 0x00000004"
definition PC_MAR :: DWORD where "PC_MAR = 0x00000008"
definition GPR_MAR :: DWORD where "GPR_MAR = 0x00000010"
definition GPR_OP :: DWORD where "GPR_OP = 0x00000020"
definition M_GPR :: DWORD where "M_GPR = 0x00000040"
definition A_GPR :: DWORD where "A_GPR = 0x00000080"
definition PC_GPR :: DWORD where "PC_GPR = 0x00000100"
definition INCGPR :: DWORD where "INCGPR = 0x00000200"
definition ADD :: DWORD where "ADD = 0x00000400"
definition CLRA :: DWORD where "CLRA = 0x00000800"
definition ROR :: DWORD where "ROR = 0x00001000"
definition ROL :: DWORD where "ROL = 0x00002000"
definition CLRF :: DWORD where "CLRF = 0x00004000"
definition COMF :: DWORD where "COMF = 0x00008000"
definition COMA :: DWORD where "COMA = 0x00010000"
definition INCA :: DWORD where "INCA = 0x00020000"
definition INCPCF :: DWORD where "INCPCF = 0x10000000"
definition INCPCZ :: DWORD where "INCPCZ = 0x20000000"
definition CLRSC :: DWORD where "CLRSC = 0x40000000"
definition HLT :: DWORD where "HLT = 0x80000000"

section \<open>Register\<close>

text \<open>
  A \<open>Register\<close> object holds four members fixed by its constructor (the three trigger
  masks and the width mask) and one mutable member \<open>mStore\<close>. The fixed members are the
  record below; the stored value is threaded through the functions, which return the
  new stored value (or, for \<open>HighLevel\<close>, the new data bus).
\<close>

record Register =
  mInMask :: DWORD
  mOutMask :: DWORD
  mIncrMask :: DWORD
  mBitMask :: WORD

definition Register_HighLevel :: "Register \<Rightarrow> DWORD \<Rightarrow> WORD \<Rightarrow> WORD \<Rightarrow> WORD" where
  "Register_HighLevel r ctrl mStore bus =
     (if ctrl AND mOutMask r \<noteq> 0 then mStore else bus)"

definition Register_Increment :: "Register \<Rightarrow> WORD \<Rightarrow> WORD" where
  "Register_Increment r mStore = (mStore + 1) AND mBitMask r"

definition Register_FallingEdge :: "Register \<Rightarrow> DWORD \<Rightarrow> WORD \<Rightarrow> WORD" where
  "Register_FallingEdge r ctrl mStore =
     (if ctrl AND mIncrMask r \<noteq> 0 \<or> mIncrMask r = 0xffff
      then Register_Increment r mStore else mStore)"

definition Register_LowLevel :: "Register \<Rightarrow> DWORD \<Rightarrow> WORD \<Rightarrow> WORD \<Rightarrow> WORD" where
  "Register_LowLevel r ctrl bus mStore =
     (if ctrl AND mInMask r \<noteq> 0 then bus AND mBitMask r else mStore)"

definition Register_Reset :: WORD where
  "Register_Reset = 0"

definition Register_Set :: "Register \<Rightarrow> WORD \<Rightarrow> WORD" where
  "Register_Set r data = data AND mBitMask r"

text \<open>The seven instances, with the masks given in the constructor of \<open>Computer\<close>.\<close>

definition accReg_cfg :: Register where
  "accReg_cfg = \<lparr>mInMask = 0, mOutMask = A_GPR, mIncrMask = INCA, mBitMask = 0x0fff\<rparr>"

definition gprReg_cfg :: Register where
  "gprReg_cfg = \<lparr>mInMask = PC_GPR OR A_GPR OR M_GPR,
                  mOutMask = GPR_M OR GPR_MAR OR GPR_OP OR GPR_PC,
                  mIncrMask = INCGPR, mBitMask = 0x0fff\<rparr>"

definition pcReg_cfg :: Register where
  "pcReg_cfg = \<lparr>mInMask = GPR_PC, mOutMask = PC_MAR OR PC_GPR, mIncrMask = INCPC,
                 mBitMask = 0x00ff\<rparr>"

definition flgReg_cfg :: Register where
  "flgReg_cfg = \<lparr>mInMask = 0, mOutMask = 0, mIncrMask = 0, mBitMask = 0x0003\<rparr>"

definition marReg_cfg :: Register where
  "marReg_cfg = \<lparr>mInMask = PC_MAR OR GPR_MAR, mOutMask = 0, mIncrMask = 0,
                  mBitMask = 0x00ff\<rparr>"

definition oprReg_cfg :: Register where
  "oprReg_cfg = \<lparr>mInMask = 0, mOutMask = 0, mIncrMask = 0, mBitMask = 0x000f\<rparr>"

definition sReg_cfg :: Register where
  "sReg_cfg = \<lparr>mInMask = 0, mOutMask = 0, mIncrMask = 0xffff, mBitMask = 0x000f\<rparr>"

section \<open>The machine state\<close>

text \<open>
  The mutable state of a \<open>Computer\<close>: the stored value of each register, the two bus
  cells, the adder's buffer \<open>mStore\<close> and the memory array (\<open>WORD mStore[128]\<close>).
\<close>

record Computer =
  sReg :: WORD
  pcReg :: WORD
  accReg :: WORD
  gprReg :: WORD
  flgReg :: WORD
  oprReg :: WORD
  marReg :: WORD
  mBusLines :: WORD
  mCtrlLines :: DWORD
  alu_mStore :: WORD
  ram_mStore :: "WORD list"

datatype fault = MemoryOutOfBounds | MicrocodeOutOfBounds

datatype outcome = Running Computer | Halted Computer | Crashed fault

section \<open>GprBus\<close>

text \<open>
  The transfer unit acts in the compute phase only. It is constructed with the trigger
  mask \<open>PC_GPR | GPR_OP\<close> and compares the masked control word with each of the two
  conditions in turn.
\<close>

definition gBus_mInMask :: DWORD where
  "gBus_mInMask = PC_GPR OR GPR_OP"

definition GprBus_FallingEdge :: "Computer \<Rightarrow> Computer" where
  "GprBus_FallingEdge s =
     (let c = mCtrlLines s AND gBus_mInMask in
      if c \<noteq> 0 then
        (let s1 = (if c = PC_GPR then
                     (let a = pcReg s AND 0x00ff; b = gprReg s AND 0x00ff in
                      s\<lparr>pcReg := Register_Set pcReg_cfg b,
                        gprReg := Register_Set gprReg_cfg a\<rparr>)
                   else s);
             s2 = (if c = GPR_OP then
                     (let a = drop_bit 8 (gprReg s1) in
                      s1\<lparr>oprReg := Register_Set oprReg_cfg a\<rparr>)
                   else s1)
         in s2)
      else s)"

section \<open>Adder\<close>

text \<open>
  The adder is constructed with the trigger mask below. Its drive phase buffers the sum
  of accumulator and general-purpose register; its compute phase first rewrites the
  Z bit of the flag register from the general-purpose register, then compares the
  masked control word with each condition in turn, in the order of the source. The
  members \<open>mNextFlag\<close> and \<open>mFlagF\<close> are written at the start of every compute phase
  before they are read, so they are local values here, passed to the two rotations.
  All arithmetic of the source is on \<open>int\<close> and is masked to 12 bits before it is
  stored, which the 16-bit operations below reproduce.
\<close>

definition alu_mInMask :: DWORD where
  "alu_mInMask = ADD OR ROL OR ROR OR COMA OR COMF OR CLRA OR CLRF"

definition Adder_HighLevel :: "Computer \<Rightarrow> Computer" where
  "Adder_HighLevel s = s\<lparr>alu_mStore := (accReg s + gprReg s) AND 0x0fff\<rparr>"

definition RolAcc :: "WORD \<Rightarrow> WORD \<Rightarrow> Computer \<Rightarrow> Computer" where
  "RolAcc mNextFlag mFlagF s =
     (let st = accReg s;
          nf = (if st AND 0x0800 \<noteq> 0 then mNextFlag OR 0x0001 else mNextFlag AND 0x0002);
          st' = (push_bit 1 st AND 0x0fff) OR mFlagF
      in s\<lparr>flgReg := Register_Set flgReg_cfg nf,
           alu_mStore := st',
           accReg := Register_Set accReg_cfg st'\<rparr>)"

definition RorAcc :: "WORD \<Rightarrow> WORD \<Rightarrow> Computer \<Rightarrow> Computer" where
  "RorAcc mNextFlag mFlagF s =
     (let acc = accReg s;
          nf = (if acc AND 0x0001 \<noteq> 0 then mNextFlag OR 0x0001 else mNextFlag AND 0x0002);
          acc1 = drop_bit 1 acc AND 0x0fff;
          acc2 = (if mFlagF \<noteq> 0 then acc1 OR 0x0800 else acc1 OR 0x0000)
      in s\<lparr>flgReg := Register_Set flgReg_cfg nf,
           accReg := Register_Set accReg_cfg acc2\<rparr>)"

definition Adder_FallingEdge :: "Computer \<Rightarrow> Computer" where
  "Adder_FallingEdge s =
     (let mNextFlag0 = flgReg s;
          mFlagF = (if mNextFlag0 AND 0x0001 \<noteq> 0 then 1 else 0);
          mNextFlag = (if gprReg s \<noteq> 0 then mNextFlag0 AND 0x0001 else mNextFlag0 OR 0x0002);
          s0 = s\<lparr>flgReg := Register_Set flgReg_cfg mNextFlag\<rparr>;
          c = mCtrlLines s AND alu_mInMask
      in if c \<noteq> 0 then
        (let s1 = (if c = A_GPR
                   then s0\<lparr>gprReg := Register_Set gprReg_cfg (accReg s0 AND 0x0fff)\<rparr> else s0);
             s2 = (if c = ADD
                   then s1\<lparr>accReg := Register_Set accReg_cfg (alu_mStore s1)\<rparr> else s1);
             s3 = (if c = COMA
                   then s2\<lparr>accReg := Register_Set accReg_cfg (NOT (accReg s2) AND 0x0fff)\<rparr>
                   else s2);
             s4 = (if c = COMF
                   then s3\<lparr>flgReg := Register_Set flgReg_cfg ((flgReg s3 XOR 0x0001) AND 0x0003)\<rparr>
                   else s3);
             s5 = (if c = CLRA then s4\<lparr>accReg := Register_Reset\<rparr> else s4);
             s6 = (if c = CLRF
                   then s5\<lparr>flgReg := Register_Set flgReg_cfg (flgReg s5 AND 0x0002)\<rparr> else s5);
             s7 = (if c = ROL then RolAcc mNextFlag mFlagF s6 else s6);
             s8 = (if c = ROR then RorAcc mNextFlag mFlagF s7 else s7)
         in s8)
      else s0)"

section \<open>Memory\<close>

text \<open>
  The array has 128 words and is indexed by the memory address register without a
  check. An index of 128 or more is outside the array, which the source leaves
  undefined: here it is the fault \<open>MemoryOutOfBounds\<close>. \<open>prg\<close> is the program image
  that the constructor copies to the start of the array.
\<close>

definition ram_mInMask :: DWORD where "ram_mInMask = GPR_M"
definition ram_mOutMask :: DWORD where "ram_mOutMask = M_GPR"

definition prg :: "WORD list" where
  "prg = [0x0100, 0x0A08, 0x0F08, 0x0F09, 0x0C01, 0x0B07, 0x0000, 0x0000, 0x000A,
          0x0FFA, 0x0001, 0x0003, 0x0005, 0x0007, 0x0009, 0x000B, 0x0000]"

definition Memory_HighLevel :: "Computer \<Rightarrow> fault + Computer" where
  "Memory_HighLevel s =
     (if mCtrlLines s AND ram_mOutMask \<noteq> 0 then
        (if unat (marReg s) < 128
         then Inr (s\<lparr>mBusLines := ram_mStore s ! unat (marReg s)\<rparr>)
         else Inl MemoryOutOfBounds)
      else Inr s)"

definition Memory_LowLevel :: "Computer \<Rightarrow> fault + Computer" where
  "Memory_LowLevel s =
     (if mCtrlLines s AND ram_mInMask \<noteq> 0 then
        (if unat (marReg s) < 128
         then Inr (s\<lparr>ram_mStore := (ram_mStore s)[unat (marReg s) := mBusLines s]\<rparr>)
         else Inl MemoryOutOfBounds)
      else Inr s)"

section \<open>Control\<close>

definition Microprg :: "DWORD list" where
  "Microprg =
    [0x00000008, 0x00000042, 0x00000020, 0x00000000, 0x00000000, 0x00000000, 0x00000000, 0x00000000,
     0x00000800, 0x40000000, 0x00000000, 0x00000000, 0x00000000, 0x00000000, 0x00000000, 0x00000000,
     0x00010000, 0x40000000, 0x00000000, 0x00000000, 0x00000000, 0x00000000, 0x00000000, 0x00000000,
     0x00020000, 0x40000000, 0x00000000, 0x00000000, 0x00000000, 0x00000000, 0x00000000, 0x00000000,
     0x00004000, 0x40000000, 0x00000000, 0x00000000, 0x00000000, 0x00000000, 0x00000000, 0x00000000,
     0x00008000, 0x40000000, 0x00000000, 0x00000000, 0x00000000, 0x00000000, 0x00000000, 0x00000000,
     0x10000000, 0x40000000, 0x00000000, 0x00000000, 0x00000000, 0x00000000, 0x00000000, 0x00000000,
     0x00001000, 0x40000000, 0x00000000, 0x00000000, 0x00000000, 0x00000000, 0x00000000, 0x00000000,
     0x00002000, 0x40000000, 0x00000000, 0x00000000, 0x00000000, 0x00000000, 0x00000000, 0x00000000,
     0x00000010, 0x00000040, 0x00000400, 0x40000000, 0x00000000, 0x00000000, 0x00000000, 0x00000000,
     0x00000010, 0x00000040, 0x00000010, 0x00000040, 0x00000400, 0x40000000, 0x00000000, 0x00000000,
     0x00000010, 0x00000080, 0x00000001, 0x40000000, 0x00000000, 0x00000000, 0x00000000, 0x00000000,
     0x00000004, 0x40000000, 0x00000000, 0x00000000, 0x00000000, 0x00000000, 0x00000000, 0x00000000,
     0x00000010, 0x00000040, 0x00000004, 0x40000000, 0x00000000, 0x00000000, 0x00000000, 0x00000000,
     0x00000010, 0x00000100, 0x00000001, 0x00000002, 0x40000000, 0x00000000, 0x00000000, 0x00000000,
     0x00000010, 0x00000040, 0x00000200, 0x00000001, 0x20000000, 0x40000000, 0x00000000, 0x00000000,
     0x80000000, 0x40000000, 0x00000000, 0x00000000, 0x00000000, 0x00000000, 0x00000000, 0x00000000]"

text \<open>
  \<open>mMicrocode\<close> is a \<open>DWORD[136]\<close> filled from \<open>Microprg\<close>; an index outside it has no
  defined value in the source and is a fault of the model.
\<close>

definition mMicrocode :: "int \<Rightarrow> DWORD option" where
  "mMicrocode i = (if 0 \<le> i \<and> i < 136 then Some (Microprg ! nat i) else None)"

text \<open>
  The table index computed in \<open>Control::RisingEdge\<close>. The operands of \<open><<\<close>, \<open>|\<close> and
  \<open>-\<close> are promoted to \<open>int\<close> in the source, so the index is an \<open>int\<close> here.
\<close>

definition decode_index :: "Computer \<Rightarrow> int" where
  "decode_index s =
     (if uint (sReg s) > 2 then
        (let mOpcode = (ucast (oprReg s) :: BYTE);
             mHltBit = (if mOpcode = 0 then 0x80 else 0x00 :: BYTE)
         in push_bit 3 (uint mOpcode) OR uint mHltBit OR (uint (sReg s) - 3))
      else uint (sReg s))"

text \<open>
  The control word after the two conditional skips (\<open>INCPCF\<close> with F clear, \<open>INCPCZ\<close>
  with Z set) have been applied to the word read from the table: the first half of
  \<open>Control::RisingEdge\<close>.
\<close>

definition decoded_word :: "Computer \<Rightarrow> DWORD option" where
  "decoded_word s =
     (let mFlagF = (flgReg s AND 0x01 \<noteq> 0);
          mFlagZ = (flgReg s AND 0x02 \<noteq> 0)
      in case mMicrocode (decode_index s) of
           None \<Rightarrow> None
         | Some w0 \<Rightarrow>
            (let w1 = (if w0 AND INCPCF \<noteq> 0 \<and> \<not> mFlagF then w0 OR INCPC else w0);
                 w2 = (if w1 AND INCPCZ \<noteq> 0 \<and> mFlagZ then w1 OR INCPC else w1)
             in Some w2))"

text \<open>
  The second half: publish the word, clear the step counter on \<open>CLRSC\<close> (replacing the
  word by the first table entry), and leave the program on \<open>HLT\<close>.
\<close>

definition Control_RisingEdge :: "Computer \<Rightarrow> outcome" where
  "Control_RisingEdge s =
     (case decoded_word s of
        None \<Rightarrow> Crashed MicrocodeOutOfBounds
      | Some w \<Rightarrow>
         (let s1 = s\<lparr>mCtrlLines := w\<rparr>;
              s2 = (if mCtrlLines s1 AND CLRSC \<noteq> 0
                    then s1\<lparr>sReg := Register_Reset, mCtrlLines := Microprg ! 0\<rparr> else s1)
          in if mCtrlLines s2 AND HLT \<noteq> 0 then Halted s2 else Running s2))"

section \<open>Computer: the four phases of a tick\<close>

definition Computer_HighLevel :: "Computer \<Rightarrow> fault + Computer" where
  "Computer_HighLevel s =
     (let c = mCtrlLines s;
          b1 = Register_HighLevel sReg_cfg c (sReg s) (mBusLines s);
          b2 = Register_HighLevel pcReg_cfg c (pcReg s) b1;
          b3 = Register_HighLevel accReg_cfg c (accReg s) b2;
          b4 = Register_HighLevel gprReg_cfg c (gprReg s) b3;
          b5 = Register_HighLevel flgReg_cfg c (flgReg s) b4;
          b6 = Register_HighLevel oprReg_cfg c (oprReg s) b5;
          b7 = Register_HighLevel marReg_cfg c (marReg s) b6
      in Memory_HighLevel (Adder_HighLevel (s\<lparr>mBusLines := b7\<rparr>)))"

definition Computer_FallingEdge :: "Computer \<Rightarrow> Computer" where
  "Computer_FallingEdge s =
     (let c = mCtrlLines s;
          s1 = s\<lparr>sReg := Register_FallingEdge sReg_cfg c (sReg s),
                 pcReg := Register_FallingEdge pcReg_cfg c (pcReg s),
                 accReg := Register_FallingEdge accReg_cfg c (accReg s),
                 gprReg := Register_FallingEdge gprReg_cfg c (gprReg s),
                 flgReg := Register_FallingEdge flgReg_cfg c (flgReg s),
                 oprReg := Register_FallingEdge oprReg_cfg c (oprReg s),
                 marReg := Register_FallingEdge marReg_cfg c (marReg s)\<rparr>
      in Adder_FallingEdge (GprBus_FallingEdge s1))"

definition Computer_LowLevel :: "Computer \<Rightarrow> fault + Computer" where
  "Computer_LowLevel s =
     (let c = mCtrlLines s; b = mBusLines s;
          s1 = s\<lparr>sReg := Register_LowLevel sReg_cfg c b (sReg s),
                 pcReg := Register_LowLevel pcReg_cfg c b (pcReg s),
                 accReg := Register_LowLevel accReg_cfg c b (accReg s),
                 gprReg := Register_LowLevel gprReg_cfg c b (gprReg s),
                 flgReg := Register_LowLevel flgReg_cfg c b (flgReg s),
                 oprReg := Register_LowLevel oprReg_cfg c b (oprReg s),
                 marReg := Register_LowLevel marReg_cfg c b (marReg s)\<rparr>
      in Memory_LowLevel s1)"

text \<open>
  The three phases that follow the decode phase, for a state whose control bus has been
  written.
\<close>

definition Computer_phases :: "Computer \<Rightarrow> fault + Computer" where
  "Computer_phases s =
     (case Computer_HighLevel s of
        Inl e \<Rightarrow> Inl e
      | Inr s2 \<Rightarrow> Computer_LowLevel (Computer_FallingEdge s2))"

text \<open>One iteration of the loop body of \<open>Computer::Update\<close>.\<close>

definition Computer_tick :: "Computer \<Rightarrow> outcome" where
  "Computer_tick s =
     (case Control_RisingEdge s of
        Running s1 \<Rightarrow> (case Computer_phases s1 of Inl e \<Rightarrow> Crashed e | Inr s4 \<Rightarrow> Running s4)
      | Halted s1 \<Rightarrow> Halted s1
      | Crashed e \<Rightarrow> Crashed e)"

text \<open>
  \<open>Computer_run n\<close> delivers at most \<open>n\<close> ticks and stops at the first one that halts
  (the source calls \<open>exit(0)\<close>) or faults.
\<close>

fun Computer_run :: "nat \<Rightarrow> Computer \<Rightarrow> outcome" where
  "Computer_run 0 s = Running s"
| "Computer_run (Suc n) s =
     (case Computer_tick s of
        Running t \<Rightarrow> Computer_run n t
      | Halted t \<Rightarrow> Halted t
      | Crashed e \<Rightarrow> Crashed e)"

definition Computer_Reset :: "Computer \<Rightarrow> Computer" where
  "Computer_Reset s =
     s\<lparr>sReg := Register_Reset, pcReg := Register_Reset, accReg := Register_Reset,
       gprReg := Register_Reset, flgReg := Register_Reset, oprReg := Register_Reset,
       marReg := Register_Reset\<rparr>"

text \<open>
  Construction: the memory constructor copies \<open>prg\<close> over the first cells of the array
  and leaves the others as they were; registers are reset. Whatever the members held
  before construction is the argument \<open>s\<close>.
\<close>

definition Computer_boot :: "Computer \<Rightarrow> Computer" where
  "Computer_boot s =
     Computer_Reset (s\<lparr>ram_mStore := prg @ drop (length prg) (ram_mStore s)\<rparr>)"

section \<open>Observation, reachability and invariants\<close>

text \<open>
  \<open>Computer_watch f n s\<close> lists the value of \<open>f\<close> at the start of each of the ticks that
  \<open>Computer_run n s\<close> delivers, followed by its value in the last state reached.
\<close>

fun Computer_watch :: "(Computer \<Rightarrow> 'a) \<Rightarrow> nat \<Rightarrow> Computer \<Rightarrow> 'a list" where
  "Computer_watch f 0 s = [f s]"
| "Computer_watch f (Suc n) s =
     f s # (case Computer_tick s of
              Running t \<Rightarrow> Computer_watch f n t
            | Halted t \<Rightarrow> []
            | Crashed e \<Rightarrow> [])"

text \<open>
  The states at tick boundaries that a run can reach after a reset, whatever the memory
  and the bus cells hold at that moment.
\<close>

inductive Computer_reachable :: "Computer \<Rightarrow> bool" where
  reset: "Computer_reachable (Computer_Reset s)"
| tick: "Computer_reachable s \<Longrightarrow> Computer_tick s = Running t \<Longrightarrow> Computer_reachable t"

text \<open>The width condition of a register: the stored value has no bit outside the mask.\<close>

definition Register_ok :: "Register \<Rightarrow> WORD \<Rightarrow> bool" where
  "Register_ok r v \<longleftrightarrow> v AND mBitMask r = v"

text \<open>
  The table index at the first execute step of an opcode, and the number of execute
  slots of that opcode that come before its \<open>CLRSC\<close> or \<open>HLT\<close> word.
\<close>

definition block_index :: "WORD \<Rightarrow> int" where
  "block_index op =
     (let mOpcode = (ucast op :: BYTE);
          mHltBit = (if mOpcode = 0 then 0x80 else 0x00 :: BYTE)
      in push_bit 3 (uint mOpcode) OR uint mHltBit)"

definition clr_slot :: "WORD \<Rightarrow> int" where
  "clr_slot op =
     int (length (takeWhile (\<lambda>w. w AND (CLRSC OR HLT) = 0)
                    (take 8 (drop (nat (block_index op)) Microprg))))"

definition Registers_ok :: "Computer \<Rightarrow> bool" where
  "Registers_ok s \<longleftrightarrow>
     Register_ok sReg_cfg (sReg s) \<and> Register_ok pcReg_cfg (pcReg s) \<and>
     Register_ok accReg_cfg (accReg s) \<and> Register_ok gprReg_cfg (gprReg s) \<and>
     Register_ok flgReg_cfg (flgReg s) \<and> Register_ok oprReg_cfg (oprReg s) \<and>
     Register_ok marReg_cfg (marReg s)"

text \<open>
  The invariant of the states at tick boundaries: every register is within its width,
  and during execute the step counter has not passed the slot of the current opcode
  that clears it.
\<close>

definition Computer_inv :: "Computer \<Rightarrow> bool" where
  "Computer_inv s \<longleftrightarrow>
     Registers_ok s \<and>
     (uint (sReg s) \<le> 2 \<or> uint (sReg s) - 3 \<le> clr_slot (oprReg s))"

text \<open>Concrete states used to exercise the theorems below.\<close>

definition blank :: Computer where
  "blank = \<lparr>sReg = 0, pcReg = 0, accReg = 0, gprReg = 0, flgReg = 0, oprReg = 0,
             marReg = 0, mBusLines = 0, mCtrlLines = 0, alu_mStore = 0,
             ram_mStore = replicate 128 0\<rparr>"

definition boot4 :: Computer where
  "boot4 = (Computer_boot blank)\<lparr>sReg := 4, pcReg := 1, gprReg := 0x0100, oprReg := 1,
             mBusLines := 0x0100, mCtrlLines := CLRA, alu_mStore := 0x0100\<rparr>"

definition boot5 :: Computer where
  "boot5 = (Computer_boot blank)\<lparr>sReg := 1, pcReg := 1, gprReg := 0x0100, oprReg := 1,
             marReg := 1, mBusLines := 0x0001, mCtrlLines := PC_MAR, alu_mStore := 0x0100\<rparr>"

definition halt3 :: Computer where
  "halt3 = blank\<lparr>sReg := 3, pcReg := 1, flgReg := 2, mCtrlLines := GPR_OP\<rparr>"



section \<open>Basic facts\<close>

lemmas control_lines =
  GPR_M_def INCPC_def GPR_PC_def PC_MAR_def GPR_MAR_def GPR_OP_def M_GPR_def A_GPR_def
  PC_GPR_def INCGPR_def ADD_def CLRA_def ROR_def ROL_def CLRF_def COMF_def COMA_def
  INCA_def INCPCF_def INCPCZ_def CLRSC_def HLT_def

lemmas register_cfgs =
  accReg_cfg_def gprReg_cfg_def pcReg_cfg_def flgReg_cfg_def marReg_cfg_def
  oprReg_cfg_def sReg_cfg_def

lemmas register_ops =
  Register_HighLevel_def Register_FallingEdge_def Register_LowLevel_def Register_Set_def
  Register_Reset_def Register_Increment_def

section \<open>The adder and the transfer unit, by cases\<close>

text \<open>
  The source adds the two registers as \<open>int\<close> and masks the sum to 12 bits; the 16-bit
  addition of \<open>Adder_HighLevel\<close> gives the same buffer value.
\<close>

lemma Adder_HighLevel_int:
  "uint (alu_mStore (Adder_HighLevel s)) = (uint (accReg s) + uint (gprReg s)) AND 0x0fff"
proof -
  have m: "(0x0fff :: WORD) = mask 12" "(0x0fff :: int) = mask 12"
    by (simp_all add: mask_eq_exp_minus_1)
  have "uint ((accReg s + gprReg s) AND mask 12) = uint (accReg s + gprReg s) mod 4096"
    by (simp add: uint_and uint_mask_eq take_bit_eq_mask [symmetric] take_bit_eq_mod uint_mod)
  also have "\<dots> = ((uint (accReg s) + uint (gprReg s)) mod 65536) mod 4096"
    by (simp add: uint_word_ariths)
  also have "\<dots> = (uint (accReg s) + uint (gprReg s)) mod 4096"
    by (simp add: mod_mod_cancel)
  also have "\<dots> = (uint (accReg s) + uint (gprReg s)) AND mask 12"
    by (simp add: take_bit_eq_mask [symmetric] take_bit_eq_mod)
  finally show ?thesis by (simp add: Adder_HighLevel_def m)
qed

lemma alu_never_A_GPR: "c AND alu_mInMask \<noteq> A_GPR"
proof
  assume "c AND alu_mInMask = A_GPR"
  then have "(c AND alu_mInMask) AND A_GPR = A_GPR AND A_GPR" by simp
  then show False by (simp add: and.assoc alu_mInMask_def control_lines)
qed

lemma alu_distinct:
    "ADD \<noteq> 0" "ADD \<noteq> COMA" "ADD \<noteq> COMF" "ADD \<noteq> CLRA" "ADD \<noteq> CLRF" "ADD \<noteq> ROL" "ADD \<noteq> ROR"
    "COMA \<noteq> 0" "COMA \<noteq> ADD" "COMA \<noteq> COMF" "COMA \<noteq> CLRA" "COMA \<noteq> CLRF" "COMA \<noteq> ROL" "COMA \<noteq> ROR"
    "COMF \<noteq> 0" "COMF \<noteq> ADD" "COMF \<noteq> COMA" "COMF \<noteq> CLRA" "COMF \<noteq> CLRF" "COMF \<noteq> ROL" "COMF \<noteq> ROR"
    "CLRA \<noteq> 0" "CLRA \<noteq> ADD" "CLRA \<noteq> COMA" "CLRA \<noteq> COMF" "CLRA \<noteq> CLRF" "CLRA \<noteq> ROL" "CLRA \<noteq> ROR"
    "CLRF \<noteq> 0" "CLRF \<noteq> ADD" "CLRF \<noteq> COMA" "CLRF \<noteq> COMF" "CLRF \<noteq> CLRA" "CLRF \<noteq> ROL" "CLRF \<noteq> ROR"
    "ROL \<noteq> 0" "ROL \<noteq> ADD" "ROL \<noteq> COMA" "ROL \<noteq> COMF" "ROL \<noteq> CLRA" "ROL \<noteq> CLRF" "ROL \<noteq> ROR"
    "ROR \<noteq> 0" "ROR \<noteq> ADD" "ROR \<noteq> COMA" "ROR \<noteq> COMF" "ROR \<noteq> CLRA" "ROR \<noteq> CLRF" "ROR \<noteq> ROL"
  by (simp_all add: control_lines)

lemmas word_norm = and.assoc bit.conj_disj_distrib2 bit.conj_xor_distrib2 or_eq_0_iff

lemma Adder_FallingEdge_cases:
  "Adder_FallingEdge s =
     (let mNextFlag0 = flgReg s;
          mFlagF = (if mNextFlag0 AND 0x0001 \<noteq> 0 then 1 else 0);
          mNextFlag = (if gprReg s \<noteq> 0 then mNextFlag0 AND 0x0001 else mNextFlag0 OR 0x0002);
          s0 = s\<lparr>flgReg := Register_Set flgReg_cfg mNextFlag\<rparr>;
          c = mCtrlLines s AND alu_mInMask
      in if c = ADD then s0\<lparr>accReg := Register_Set accReg_cfg (alu_mStore s0)\<rparr>
         else if c = COMA then s0\<lparr>accReg := Register_Set accReg_cfg (NOT (accReg s0) AND 0x0fff)\<rparr>
         else if c = COMF then s0\<lparr>flgReg := Register_Set flgReg_cfg ((flgReg s0 XOR 0x0001) AND 0x0003)\<rparr>
         else if c = CLRA then s0\<lparr>accReg := Register_Reset\<rparr>
         else if c = CLRF then s0\<lparr>flgReg := Register_Set flgReg_cfg (flgReg s0 AND 0x0002)\<rparr>
         else if c = ROL then RolAcc mNextFlag mFlagF s0
         else if c = ROR then RorAcc mNextFlag mFlagF s0
         else s0)"
proof -
  note d = alu_distinct
  define c where "c = mCtrlLines s AND alu_mInMask"
  have a: "c \<noteq> A_GPR" unfolding c_def by (rule alu_never_A_GPR)
  consider "c = ADD" | "c = COMA" | "c = COMF" | "c = CLRA" | "c = CLRF" | "c = ROL" | "c = ROR"
    | "c = 0"
    | "c \<noteq> 0" "c \<noteq> ADD" "c \<noteq> COMA" "c \<noteq> COMF" "c \<noteq> CLRA" "c \<noteq> CLRF" "c \<noteq> ROL" "c \<noteq> ROR"
    by blast
  then have "Adder_FallingEdge s =
     (let mNextFlag0 = flgReg s;
          mFlagF = (if mNextFlag0 AND 0x0001 \<noteq> 0 then 1 else 0);
          mNextFlag = (if gprReg s \<noteq> 0 then mNextFlag0 AND 0x0001 else mNextFlag0 OR 0x0002);
          s0 = s\<lparr>flgReg := Register_Set flgReg_cfg mNextFlag\<rparr>
      in if c = ADD then s0\<lparr>accReg := Register_Set accReg_cfg (alu_mStore s0)\<rparr>
         else if c = COMA then s0\<lparr>accReg := Register_Set accReg_cfg (NOT (accReg s0) AND 0x0fff)\<rparr>
         else if c = COMF then s0\<lparr>flgReg := Register_Set flgReg_cfg ((flgReg s0 XOR 0x0001) AND 0x0003)\<rparr>
         else if c = CLRA then s0\<lparr>accReg := Register_Reset\<rparr>
         else if c = CLRF then s0\<lparr>flgReg := Register_Set flgReg_cfg (flgReg s0 AND 0x0002)\<rparr>
         else if c = ROL then RolAcc mNextFlag mFlagF s0
         else if c = ROR then RorAcc mNextFlag mFlagF s0
         else s0)"
    unfolding Adder_FallingEdge_def c_def [symmetric]
    by cases (use a d in \<open>simp_all add: Let_def\<close>)
  then show ?thesis by (simp add: c_def Let_def)
qed

lemma GprBus_FallingEdge_cases:
  "GprBus_FallingEdge s =
     (let c = mCtrlLines s AND gBus_mInMask in
      if c = PC_GPR then
        s\<lparr>pcReg := Register_Set pcReg_cfg (gprReg s AND 0x00ff),
          gprReg := Register_Set gprReg_cfg (pcReg s AND 0x00ff)\<rparr>
      else if c = GPR_OP then s\<lparr>oprReg := Register_Set oprReg_cfg (drop_bit 8 (gprReg s))\<rparr>
      else s)"
proof -
  have d: "PC_GPR \<noteq> 0" "GPR_OP \<noteq> 0" "PC_GPR \<noteq> GPR_OP"
    by (simp_all add: control_lines)
  define c where "c = mCtrlLines s AND gBus_mInMask"
  consider "c = PC_GPR" | "c = GPR_OP" | "c = 0" | "c \<noteq> 0" "c \<noteq> PC_GPR" "c \<noteq> GPR_OP"
    by blast
  then have "GprBus_FallingEdge s =
     (if c = PC_GPR then
        s\<lparr>pcReg := Register_Set pcReg_cfg (gprReg s AND 0x00ff),
          gprReg := Register_Set gprReg_cfg (pcReg s AND 0x00ff)\<rparr>
      else if c = GPR_OP then s\<lparr>oprReg := Register_Set oprReg_cfg (drop_bit 8 (gprReg s))\<rparr>
      else s)"
    unfolding GprBus_FallingEdge_def c_def [symmetric]
    by cases (use d in \<open>simp_all add: Let_def\<close>)
  then show ?thesis by (simp add: c_def Let_def)
qed

lemma Adder_FallingEdge_frame:
  "gprReg (Adder_FallingEdge s) = gprReg s"
  "pcReg (Adder_FallingEdge s) = pcReg s"
  "sReg (Adder_FallingEdge s) = sReg s"
  "oprReg (Adder_FallingEdge s) = oprReg s"
  "marReg (Adder_FallingEdge s) = marReg s"
  "mBusLines (Adder_FallingEdge s) = mBusLines s"
  "mCtrlLines (Adder_FallingEdge s) = mCtrlLines s"
  "ram_mStore (Adder_FallingEdge s) = ram_mStore s"
  by (simp_all add: Adder_FallingEdge_cases RolAcc_def RorAcc_def Let_def)

lemma GprBus_FallingEdge_frame:
  "sReg (GprBus_FallingEdge s) = sReg s"
  "accReg (GprBus_FallingEdge s) = accReg s"
  "flgReg (GprBus_FallingEdge s) = flgReg s"
  "marReg (GprBus_FallingEdge s) = marReg s"
  "mBusLines (GprBus_FallingEdge s) = mBusLines s"
  "mCtrlLines (GprBus_FallingEdge s) = mCtrlLines s"
  "alu_mStore (GprBus_FallingEdge s) = alu_mStore s"
  "ram_mStore (GprBus_FallingEdge s) = ram_mStore s"
  by (simp_all add: GprBus_FallingEdge_cases Let_def)

lemma Adder_FallingEdge_Z:
  "(flgReg (Adder_FallingEdge s) AND 0x0002 \<noteq> 0) = (gprReg s = 0)"
  by (simp add: Adder_FallingEdge_cases RolAcc_def RorAcc_def Let_def flgReg_cfg_def
      register_ops word_norm alu_distinct)

lemma Adder_FallingEdge_F:
  "mCtrlLines s AND alu_mInMask \<notin> {COMF, CLRF, ROL, ROR} \<Longrightarrow>
   flgReg (Adder_FallingEdge s) AND 0x0001 = flgReg s AND 0x0001"
  by (simp add: Adder_FallingEdge_cases Let_def flgReg_cfg_def register_ops word_norm alu_distinct)

lemma flgReg_FallingEdge [simp]: "Register_FallingEdge flgReg_cfg c v = v"
  by (simp add: Register_FallingEdge_def flgReg_cfg_def)


section \<open>Decoding\<close>

lemma length_Microprg: "length Microprg = 136"
  by (simp add: Microprg_def)

lemma mMicrocode_in_set: "mMicrocode i = Some w \<Longrightarrow> w \<in> set Microprg"
  by (auto simp: mMicrocode_def length_Microprg split: if_splits)

lemma decoded_word_cases:
  assumes "decoded_word s = Some w"
  obtains w0 where "w0 \<in> set Microprg" "w = w0"
  | w0 where "w0 \<in> set Microprg" "w0 AND (INCPCF OR INCPCZ) \<noteq> 0" "w = w0 OR INCPC"
proof -
  from assms obtain w0 where m: "mMicrocode (decode_index s) = Some w0"
    by (auto simp: decoded_word_def Let_def split: option.splits)
  have i: "(w0 OR INCPC) AND INCPCZ = w0 AND INCPCZ"
    by (simp add: word_norm control_lines)
  from assms m have "w = w0 \<or> (w0 AND (INCPCF OR INCPCZ) \<noteq> 0 \<and> w = w0 OR INCPC)"
    by (auto simp: decoded_word_def Let_def i bit.conj_disj_distrib or_eq_0_iff split: if_splits)
  with that mMicrocode_in_set [OF m] show thesis by blast
qed

lemma Microprg_PC_GPR:
  "\<forall>w0 \<in> set Microprg. (w0 AND PC_GPR \<noteq> 0 \<longrightarrow> w0 = PC_GPR) \<and>
      (w0 AND (INCPCF OR INCPCZ) \<noteq> 0 \<longrightarrow> (w0 OR INCPC) AND PC_GPR = 0)"
  by (simp add: Microprg_def control_lines)

lemma Microprg_HLT:
  "\<forall>w0 \<in> set Microprg. (w0 AND HLT \<noteq> 0 \<longrightarrow> w0 = HLT) \<and>
      (w0 AND (INCPCF OR INCPCZ) \<noteq> 0 \<longrightarrow> (w0 OR INCPC) AND HLT = 0)"
  by (simp add: Microprg_def control_lines)

lemma decoded_word_PC_GPR:
  "decoded_word s = Some w \<Longrightarrow> w AND PC_GPR \<noteq> 0 \<Longrightarrow> w = PC_GPR"
  by (erule decoded_word_cases) (use Microprg_PC_GPR in auto)

lemma decoded_word_HLT:
  "decoded_word s = Some w \<Longrightarrow> w AND HLT \<noteq> 0 \<Longrightarrow> w = HLT"
  by (erule decoded_word_cases) (use Microprg_HLT in auto)

lemma Control_RisingEdge_Running:
  assumes "Control_RisingEdge s = Running s1"
  obtains w where "decoded_word s = Some w" "w AND CLRSC = 0" "s1 = s\<lparr>mCtrlLines := w\<rparr>"
  | w where "decoded_word s = Some w" "w AND CLRSC \<noteq> 0"
      "s1 = s\<lparr>sReg := Register_Reset, mCtrlLines := Microprg ! 0\<rparr>"
  using assms
  by (auto simp: Control_RisingEdge_def Let_def split: option.splits if_splits)

section \<open>Ticks with a given control word\<close>

lemma Computer_FallingEdge_frame:
  "mBusLines (Computer_FallingEdge s) = mBusLines s"
  "mCtrlLines (Computer_FallingEdge s) = mCtrlLines s"
  "ram_mStore (Computer_FallingEdge s) = ram_mStore s"
  "marReg (Computer_FallingEdge s) = marReg s"
  by (simp_all add: Computer_FallingEdge_def Let_def Adder_FallingEdge_frame
      GprBus_FallingEdge_frame Register_FallingEdge_def marReg_cfg_def)


lemma Microprg_0: "Microprg ! 0 = PC_MAR"
  by (simp add: Microprg_def control_lines)

lemma phases_PC_GPR:
  assumes c: "mCtrlLines s = PC_GPR"
  shows "\<exists>s2 t. Computer_HighLevel s = Inr s2 \<and>
           pcReg (Computer_FallingEdge s2) = gprReg s AND 0x00ff \<and>
           gprReg (Computer_FallingEdge s2) = pcReg s AND 0x00ff \<and>
           Computer_phases s = Inr t \<and>
           pcReg t = gprReg s AND 0x00ff \<and> gprReg t = pcReg s AND 0x0fff"
  using c
  by (simp add: Computer_phases_def Computer_HighLevel_def Computer_FallingEdge_def
      Computer_LowLevel_def Let_def Memory_HighLevel_def Memory_LowLevel_def
      Adder_HighLevel_def Adder_FallingEdge_cases GprBus_FallingEdge_cases
      gBus_mInMask_def alu_mInMask_def ram_mInMask_def ram_mOutMask_def
      register_ops register_cfgs control_lines word_norm)


section \<open>Zero flag\<close>

text \<open>
  Claim C4. After the compute phase of a tick, whatever the control word, bit 1 (Z) of
  the flag register is set exactly when the general-purpose register, as the compute
  phase leaves it, is zero; and bit 0 (F) is the one from before the phase unless the
  adder's condition is one of \<open>COMF\<close>, \<open>CLRF\<close>, \<open>ROL\<close>, \<open>ROR\<close>.
\<close>

theorem C4_zero_flag_after_compute:
  "((flgReg (Computer_FallingEdge s) AND 0x0002 \<noteq> 0) = (gprReg (Computer_FallingEdge s) = 0)) \<and>
   (mCtrlLines s AND alu_mInMask \<notin> {COMF, CLRF, ROL, ROR} \<longrightarrow>
      flgReg (Computer_FallingEdge s) AND 0x0001 = flgReg s AND 0x0001)"
  by (simp add: Computer_FallingEdge_def Let_def Adder_FallingEdge_Z Adder_FallingEdge_frame
      Adder_FallingEdge_F GprBus_FallingEdge_frame)

theorem C4_zero_flag_after_compute_witness:
  "mCtrlLines (blank\<lparr>mCtrlLines := INCGPR, gprReg := 0x0fff, flgReg := 1\<rparr>) AND alu_mInMask
      \<notin> {COMF, CLRF, ROL, ROR} \<and>
   gprReg (Computer_FallingEdge (blank\<lparr>mCtrlLines := INCGPR, gprReg := 0x0fff, flgReg := 1\<rparr>)) = 0 \<and>
   flgReg (Computer_FallingEdge (blank\<lparr>mCtrlLines := INCGPR, gprReg := 0x0fff, flgReg := 1\<rparr>))
      AND 0x0002 \<noteq> 0 \<and>
   flgReg (Computer_FallingEdge (blank\<lparr>mCtrlLines := INCGPR, gprReg := 0x0fff, flgReg := 1\<rparr>))
      AND 0x0001 = 1"
proof -
  let ?s = "blank\<lparr>mCtrlLines := INCGPR, gprReg := 0x0fff, flgReg := 1\<rparr>"
  have h: "mCtrlLines ?s AND alu_mInMask \<notin> {COMF, CLRF, ROL, ROR}"
    by (simp add: alu_mInMask_def control_lines)
  have g: "gprReg (Computer_FallingEdge ?s) = 0"
    by (simp add: Computer_FallingEdge_def Let_def Adder_FallingEdge_frame
        GprBus_FallingEdge_cases gBus_mInMask_def register_ops register_cfgs control_lines)
  from h g C4_zero_flag_after_compute [of ?s] show ?thesis by simp
qed

section \<open>Halt\<close>

text \<open>
  Claim C9. When the decoded control word has the halt bit, the decode phase stops the
  run at once: the tick ends as \<open>Halted\<close> before its drive, compute and latch phases,
  the state it leaves differs from the state before the tick only in the control bus
  (which now holds the halt word), so no register, memory cell or data-bus value has
  changed, and a run of any length from here ends in that same state.
\<close>

theorem C9_halt_is_terminal:
  assumes "decoded_word s = Some w" and "w AND HLT \<noteq> 0"
  shows "Control_RisingEdge s = Halted (s\<lparr>mCtrlLines := w\<rparr>) \<and>
         Computer_tick s = Halted (s\<lparr>mCtrlLines := w\<rparr>) \<and>
         Computer_run (Suc n) s = Halted (s\<lparr>mCtrlLines := w\<rparr>)"
proof -
  from assms have w: "w = HLT" by (rule decoded_word_HLT)
  have "Control_RisingEdge s = Halted (s\<lparr>mCtrlLines := w\<rparr>)"
    using assms(1) by (simp add: Control_RisingEdge_def Let_def w control_lines)
  then show ?thesis by (simp add: Computer_tick_def)
qed


theorem C9_halt_is_terminal_witness:
  "decoded_word (blank\<lparr>sReg := 3\<rparr>) = Some HLT \<and> HLT AND HLT \<noteq> 0 \<and>
   Control_RisingEdge (blank\<lparr>sReg := 3\<rparr>) = Halted (blank\<lparr>sReg := 3, mCtrlLines := HLT\<rparr>) \<and>
   Computer_tick (blank\<lparr>sReg := 3\<rparr>) = Halted (blank\<lparr>sReg := 3, mCtrlLines := HLT\<rparr>) \<and>
   Computer_run (Suc 5) (blank\<lparr>sReg := 3\<rparr>) = Halted (blank\<lparr>sReg := 3, mCtrlLines := HLT\<rparr>)"
proof -
  have d: "decoded_word (blank\<lparr>sReg := 3\<rparr>) = Some HLT"
    by (simp add: decoded_word_def decode_index_def mMicrocode_def Microprg_def blank_def
        control_lines Let_def)
  have h: "HLT AND HLT \<noteq> 0" by (simp add: HLT_def)
  from d h C9_halt_is_terminal [OF d h, of 5] show ?thesis by simp
qed

section \<open>Accumulator to general-purpose register\<close>




section \<open>Program counter and general-purpose register swap\<close>

text \<open>
  Claim C8. In a tick whose control word asserts \<open>PC_GPR\<close>, the transfer unit exchanges
  the two registers in the compute phase, register to register: after that phase the
  program counter holds the old low 8 bits of the general-purpose register and the
  general-purpose register the old low 8 bits of the program counter. At the end of
  the tick the program counter still holds the old low 8 bits of the general-purpose
  register, and the low 8 bits of the general-purpose register are those of the old
  program counter (the old program counter itself, when it was within its 8 bits).
\<close>

theorem C8_pc_gpr_swap:
  assumes r: "Control_RisingEdge s = Running s1"
    and a: "mCtrlLines s1 AND PC_GPR \<noteq> 0"
  shows "\<exists>s2 t. Computer_HighLevel s1 = Inr s2 \<and>
           pcReg (Computer_FallingEdge s2) = gprReg s AND 0x00ff \<and>
           gprReg (Computer_FallingEdge s2) = pcReg s AND 0x00ff \<and>
           Computer_tick s = Running t \<and>
           pcReg t = gprReg s AND 0x00ff \<and>
           gprReg t AND 0x00ff = pcReg s AND 0x00ff \<and>
           gprReg t = pcReg s AND 0x0fff \<and>
           (Register_ok pcReg_cfg (pcReg s) \<longrightarrow> gprReg t AND 0x00ff = pcReg s)"
proof -
  have n: "PC_MAR AND PC_GPR = 0" by (simp add: control_lines)
  from r a have c: "mCtrlLines s1 = PC_GPR \<and> pcReg s1 = pcReg s \<and> gprReg s1 = gprReg s"
    by (auto elim!: Control_RisingEdge_Running simp: Microprg_0 n dest: decoded_word_PC_GPR)
  then have c1: "mCtrlLines s1 = PC_GPR" by simp
  from phases_PC_GPR [OF c1] r c show ?thesis
    by (auto simp: Computer_tick_def word_norm Register_ok_def pcReg_cfg_def)
qed


theorem C8_pc_gpr_swap_witness:
  "Control_RisingEdge (blank\<lparr>sReg := 4, oprReg := 0xE, pcReg := 0x05, gprReg := 0xE12\<rparr>) =
     Running (blank\<lparr>sReg := 4, oprReg := 0xE, pcReg := 0x05, gprReg := 0xE12, mCtrlLines := PC_GPR\<rparr>) \<and>
   PC_GPR AND PC_GPR \<noteq> 0 \<and>
   Register_ok pcReg_cfg (pcReg (blank\<lparr>sReg := 4, oprReg := 0xE, pcReg := 0x05, gprReg := 0xE12\<rparr>)) \<and>
   (\<exists>t. Computer_tick (blank\<lparr>sReg := 4, oprReg := 0xE, pcReg := 0x05, gprReg := 0xE12\<rparr>) = Running t \<and>
        pcReg t = 0x12 \<and> gprReg t = 0x05 \<and> gprReg t AND 0x00ff = 0x05)"
proof -
  let ?s = "blank\<lparr>sReg := 4, oprReg := 0xE, pcReg := 0x05, gprReg := 0xE12\<rparr>"
  have d: "decoded_word ?s = Some PC_GPR"
    by (simp add: decoded_word_def decode_index_def mMicrocode_def Microprg_def blank_def
        control_lines Let_def)
  have r: "Control_RisingEdge ?s = Running (?s\<lparr>mCtrlLines := PC_GPR\<rparr>)"
    by (simp add: Control_RisingEdge_def d Let_def) (simp add: control_lines)
  have a: "mCtrlLines (?s\<lparr>mCtrlLines := PC_GPR\<rparr>) AND PC_GPR \<noteq> 0"
    by (simp add: control_lines)
  have v: "gprReg ?s AND 0x00ff = 0x12" "pcReg ?s AND 0x0fff = 0x05" "pcReg ?s = 0x05"
    by (simp_all add: blank_def)
  have k: "Register_ok pcReg_cfg (pcReg ?s)"
    by (simp add: Register_ok_def pcReg_cfg_def)
  from r a v k C8_pc_gpr_swap [OF r a] show ?thesis by auto
qed

section \<open>Rotation through the carry flip-flop\<close>

lemma p11: "(2048::WORD) = 2 ^ 11" by simp

lemma and_2048_bit: "((a::WORD) AND 2048 \<noteq> 0) = bit a 11"
  unfolding p11 by (simp only: and_exp_eq_0_iff_not_bit not_not)

lemma and_1_bit: "((a::WORD) AND 1 \<noteq> 0) = bit a 0"
  by (simp add: and_one_eq bit_0 mod_2_eq_odd)

lemma bit_2048: "bit (2048::WORD) n = (n = 11)"
  unfolding p11 by (simp only: bit_exp_iff) (auto simp: possible_bit_word)

lemma bit_double: "bit ((a::WORD) * 2) n = (0 < n \<and> n < 16 \<and> bit a (n - 1))"
  using bit_double_iff [of a n] by (auto simp add: mult.commute possible_bit_word)

lemma bit_2048_int: "bit (2048::int) n = (n = 11)"
proof -
  have "(2048::int) = 2 ^ 11" by simp
  then show ?thesis by (simp only: bit_exp_iff) simp
qed

lemma rol_ror_word:
  fixes a :: WORD
  assumes "a AND 0x0fff = a"
  shows "((drop_bit 1 (((push_bit 1 a AND 0x0fff) OR of_bool f) AND 0x0fff) AND 0x0fff)
            OR (if bit a 11 then 0x0800 else 0)) AND 0x0fff = a"
proof (rule bit_word_eqI)
  fix n assume "n < LENGTH(16)"
  have n12: "n < 12 \<longleftrightarrow> n < 11 \<or> n = 11" by arith
  have m: "(0x0fff::WORD) = mask 12" by (simp add: mask_eq_exp_minus_1)
  have A: "bit a i \<Longrightarrow> i < 12" for i
    using assms unfolding m by (metis bit_and_iff bit_mask_iff)
  show "bit (((drop_bit 1 (((push_bit 1 a AND 0x0fff) OR of_bool f) AND 0x0fff) AND 0x0fff)
            OR (if bit a 11 then 0x0800 else 0)) AND 0x0fff) n = bit a n"
    unfolding m
    using A [of n] A [of 11] n12
    by (auto simp add: bit_simps bit_2048 bit_2048_int bit_double)
qed

lemma ror_rol_word:
  fixes a :: WORD
  assumes "a AND 0x0fff = a"
  shows "((push_bit 1 (((drop_bit 1 a AND 0x0fff) OR (if f then 0x0800 else 0)) AND 0x0fff) AND 0x0fff)
            OR of_bool (bit a 0)) AND 0x0fff = a"
proof (rule bit_word_eqI)
  fix n assume "n < LENGTH(16)"
  have n12: "n < 12 \<longleftrightarrow> n < 11 \<or> n = 11" by arith
  have m: "(0x0fff::WORD) = mask 12" by (simp add: mask_eq_exp_minus_1)
  have A: "bit a i \<Longrightarrow> i < 12" for i
    using assms unfolding m by (metis bit_and_iff bit_mask_iff)
  show "bit (((push_bit 1 (((drop_bit 1 a AND 0x0fff) OR (if f then 0x0800 else 0)) AND 0x0fff) AND 0x0fff)
            OR of_bool (bit a 0)) AND 0x0fff) n = bit a n"
    unfolding m
    using A [of n] A [of 11] n12
    by (cases n) (auto simp add: bit_simps bit_2048 bit_2048_int bit_double)
qed

lemma rol_carry_out:
  fixes a :: WORD
  shows "bit (((push_bit 1 a AND 0x0fff) OR of_bool f) AND 0x0fff) 0 = f"
proof -
  have m: "(0x0fff::WORD) = mask 12" by (simp add: mask_eq_exp_minus_1)
  show ?thesis unfolding m by (auto simp add: bit_simps bit_double)
qed

lemma ror_carry_out:
  fixes a :: WORD
  assumes "a AND 0x0fff = a"
  shows "bit (((drop_bit 1 a AND 0x0fff) OR (if f then 0x0800 else 0)) AND 0x0fff) 11 = f"
proof -
  have m: "(0x0fff::WORD) = mask 12" by (simp add: mask_eq_exp_minus_1)
  have A: "bit a i \<Longrightarrow> i < 12" for i
    using assms unfolding m by (metis bit_and_iff bit_mask_iff)
  show ?thesis unfolding m using A [of 12] by (auto simp add: bit_simps bit_2048 bit_2048_int)
qed

lemma and_1_eq_iff: "((x::WORD) AND 1 = y AND 1) = (bit x 0 = bit y 0)"
  by (simp add: and_one_eq bit_0 mod_2_eq_odd)

lemma phases_ROL:
  assumes c: "mCtrlLines s = ROL"
  shows "\<exists>t. Computer_phases s = Inr t \<and>
           accReg t = ((push_bit 1 (accReg s) AND 0x0fff) OR (if flgReg s AND 1 \<noteq> 0 then 1 else 0))
                        AND 0x0fff \<and>
           (flgReg t AND 1 \<noteq> 0) = (accReg s AND 0x0800 \<noteq> 0)"
  using c
  by (simp add: Computer_phases_def Computer_HighLevel_def Computer_FallingEdge_def
      Computer_LowLevel_def Let_def Memory_HighLevel_def Memory_LowLevel_def
      Adder_HighLevel_def Adder_FallingEdge_cases GprBus_FallingEdge_cases RolAcc_def
      gBus_mInMask_def alu_mInMask_def ram_mInMask_def ram_mOutMask_def
      register_ops register_cfgs control_lines word_norm)

lemma phases_ROR:
  assumes c: "mCtrlLines s = ROR"
  shows "\<exists>t. Computer_phases s = Inr t \<and>
           accReg t = ((drop_bit 1 (accReg s) AND 0x0fff) OR (if flgReg s AND 1 \<noteq> 0 then 0x0800 else 0))
                        AND 0x0fff \<and>
           (flgReg t AND 1 \<noteq> 0) = (accReg s AND 1 \<noteq> 0)"
  using c
  by (simp add: Computer_phases_def Computer_HighLevel_def Computer_FallingEdge_def
      Computer_LowLevel_def Let_def Memory_HighLevel_def Memory_LowLevel_def
      Adder_HighLevel_def Adder_FallingEdge_cases GprBus_FallingEdge_cases RorAcc_def
      gBus_mInMask_def alu_mInMask_def ram_mInMask_def ram_mOutMask_def
      register_ops register_cfgs control_lines word_norm)

lemma Control_RisingEdge_keeps:
  assumes "Control_RisingEdge s = Running s1"
  shows "accReg s1 = accReg s" "flgReg s1 = flgReg s" "pcReg s1 = pcReg s"
    "gprReg s1 = gprReg s" "oprReg s1 = oprReg s" "marReg s1 = marReg s"
    "mBusLines s1 = mBusLines s" "ram_mStore s1 = ram_mStore s" "alu_mStore s1 = alu_mStore s"
  using assms by (auto elim!: Control_RisingEdge_Running)

lemma tick_ROL:
  assumes "Control_RisingEdge s = Running s1" "mCtrlLines s1 = ROL" "Computer_tick s = Running t"
  shows "accReg t = ((push_bit 1 (accReg s) AND 0x0fff) OR of_bool (bit (flgReg s) 0)) AND 0x0fff"
    and "bit (flgReg t) 0 = bit (accReg s) 11"
  using assms phases_ROL [of s1] Control_RisingEdge_keeps [of s s1]
  by (auto simp: Computer_tick_def and_1_bit and_2048_bit)

lemma tick_ROR:
  assumes "Control_RisingEdge s = Running s1" "mCtrlLines s1 = ROR" "Computer_tick s = Running t"
  shows "accReg t = ((drop_bit 1 (accReg s) AND 0x0fff) OR (if bit (flgReg s) 0 then 0x0800 else 0)) AND 0x0fff"
    and "bit (flgReg t) 0 = bit (accReg s) 0"
  using assms phases_ROR [of s1] Control_RisingEdge_keeps [of s s1]
  by (auto simp: Computer_tick_def and_1_bit)


lemmas exec_defs =
  Computer_tick_def Computer_phases_def Computer_HighLevel_def Computer_FallingEdge_def
  Computer_LowLevel_def Control_RisingEdge_def decoded_word_def decode_index_def
  mMicrocode_def Memory_HighLevel_def Memory_LowLevel_def Adder_HighLevel_def
  Adder_FallingEdge_def RolAcc_def RorAcc_def GprBus_FallingEdge_def
  gBus_mInMask_def alu_mInMask_def ram_mInMask_def ram_mOutMask_def
  register_ops register_cfgs control_lines Let_def

text \<open>
  Claim C5. Take a state whose accumulator is a 12-bit value, run a rotate-left tick,
  then (in any state with the accumulator and the carry flag that tick left) a
  rotate-right tick: the accumulator and the carry flag F are those from before the
  first tick. The same holds with the two rotations in the other order.
\<close>

theorem C5_rotate_round_trip:
  assumes w: "accReg s AND 0x0fff = accReg s"
    and r1: "Control_RisingEdge s = Running s1" and t1: "Computer_tick s = Running t"
    and acc: "accReg u = accReg t" and flg: "flgReg u AND 0x0001 = flgReg t AND 0x0001"
    and r2: "Control_RisingEdge u = Running u1" and t2: "Computer_tick u = Running v"
    and c: "(mCtrlLines s1 = ROL \<and> mCtrlLines u1 = ROR) \<or>
            (mCtrlLines s1 = ROR \<and> mCtrlLines u1 = ROL)"
  shows "accReg v = accReg s \<and> flgReg v AND 0x0001 = flgReg s AND 0x0001"
proof -
  from flg have f: "bit (flgReg u) 0 = bit (flgReg t) 0" by (simp add: and_1_eq_iff)
  from c show ?thesis
  proof
    assume k: "mCtrlLines s1 = ROL \<and> mCtrlLines u1 = ROR"
    then have a: "mCtrlLines s1 = ROL" and b: "mCtrlLines u1 = ROR" by simp_all
    note x = tick_ROL [OF r1 a t1] and y = tick_ROR [OF r2 b t2]
    have "accReg v = accReg s"
      unfolding y(1) acc f x using rol_ror_word [OF w] by simp
    moreover have "bit (flgReg v) 0 = bit (flgReg s) 0"
      unfolding y(2) acc x(1) by (rule rol_carry_out)
    ultimately show ?thesis by (simp add: and_1_eq_iff)
  next
    assume k: "mCtrlLines s1 = ROR \<and> mCtrlLines u1 = ROL"
    then have a: "mCtrlLines s1 = ROR" and b: "mCtrlLines u1 = ROL" by simp_all
    note x = tick_ROR [OF r1 a t1] and y = tick_ROL [OF r2 b t2]
    have "accReg v = accReg s"
      unfolding y(1) acc f x using ror_rol_word [OF w] by simp
    moreover have "bit (flgReg v) 0 = bit (flgReg s) 0"
      unfolding y(2) acc x(1) by (rule ror_carry_out [OF w])
    ultimately show ?thesis by (simp add: and_1_eq_iff)
  qed
qed


theorem C5_rotate_round_trip_witness:
  "accReg (blank\<lparr>sReg := 3, oprReg := 8, accReg := 0x0801\<rparr>) AND 0x0fff
     = accReg (blank\<lparr>sReg := 3, oprReg := 8, accReg := 0x0801\<rparr>) \<and>
   Control_RisingEdge (blank\<lparr>sReg := 3, oprReg := 8, accReg := 0x0801\<rparr>)
     = Running (blank\<lparr>sReg := 3, oprReg := 8, accReg := 0x0801, mCtrlLines := ROL\<rparr>) \<and>
   Computer_tick (blank\<lparr>sReg := 3, oprReg := 8, accReg := 0x0801\<rparr>)
     = Running (blank\<lparr>sReg := 4, oprReg := 8, accReg := 0x0002, flgReg := 3,
                       mCtrlLines := ROL, alu_mStore := 0x0002\<rparr>) \<and>
   Control_RisingEdge (blank\<lparr>sReg := 3, oprReg := 7, accReg := 0x0002, flgReg := 3\<rparr>)
     = Running (blank\<lparr>sReg := 3, oprReg := 7, accReg := 0x0002, flgReg := 3,
                       mCtrlLines := ROR\<rparr>) \<and>
   Computer_tick (blank\<lparr>sReg := 3, oprReg := 7, accReg := 0x0002, flgReg := 3\<rparr>)
     = Running (blank\<lparr>sReg := 4, oprReg := 7, accReg := 0x0801, flgReg := 2,
                       mCtrlLines := ROR, alu_mStore := 0x0002\<rparr>) \<and>
   accReg (blank\<lparr>sReg := 4, oprReg := 7, accReg := 0x0801, flgReg := 2,
                  mCtrlLines := ROR, alu_mStore := 0x0002\<rparr>) = 0x0801 \<and>
   flgReg (blank\<lparr>sReg := 4, oprReg := 7, accReg := 0x0801, flgReg := 2,
                  mCtrlLines := ROR, alu_mStore := 0x0002\<rparr>) AND 0x0001 = 0"
proof -
  let ?s = "blank\<lparr>sReg := 3, oprReg := 8, accReg := 0x0801\<rparr>"
  let ?s1 = "blank\<lparr>sReg := 3, oprReg := 8, accReg := 0x0801, mCtrlLines := ROL\<rparr>"
  let ?t = "blank\<lparr>sReg := 4, oprReg := 8, accReg := 0x0002, flgReg := 3,
                  mCtrlLines := ROL, alu_mStore := 0x0002\<rparr>"
  let ?u = "blank\<lparr>sReg := 3, oprReg := 7, accReg := 0x0002, flgReg := 3\<rparr>"
  let ?u1 = "blank\<lparr>sReg := 3, oprReg := 7, accReg := 0x0002, flgReg := 3, mCtrlLines := ROR\<rparr>"
  let ?v = "blank\<lparr>sReg := 4, oprReg := 7, accReg := 0x0801, flgReg := 2,
                  mCtrlLines := ROR, alu_mStore := 0x0002\<rparr>"
  have w: "accReg ?s AND 0x0fff = accReg ?s" by (simp add: blank_def)
  have r1: "Control_RisingEdge ?s = Running ?s1"
    by (simp add: exec_defs Microprg_def blank_def)
  have t1: "Computer_tick ?s = Running ?t"
    by (simp add: exec_defs Microprg_def blank_def)
  have acc: "accReg ?u = accReg ?t" by simp
  have flg: "flgReg ?u AND 0x0001 = flgReg ?t AND 0x0001" by simp
  have r2: "Control_RisingEdge ?u = Running ?u1"
    by (simp add: exec_defs Microprg_def blank_def)
  have t2: "Computer_tick ?u = Running ?v"
    by (simp add: exec_defs Microprg_def blank_def)
  have c: "(mCtrlLines ?s1 = ROL \<and> mCtrlLines ?u1 = ROR) \<or>
           (mCtrlLines ?s1 = ROR \<and> mCtrlLines ?u1 = ROL)" by simp
  from C5_rotate_round_trip [OF w r1 t1 acc flg r2 t2 c] w r1 t1 r2 t2
  show ?thesis by (simp add: blank_def)
qed

section \<open>The invariant of reachable states\<close>

lemma word_le_15_cases:
  fixes x :: WORD
  assumes "x AND 0x000f = x"
  shows "x \<in> {0, 1, 2, 3, 4, 5, 6, 7, 8, 9, 10, 11, 12, 13, 14, 15}"
proof -
  have "x AND 15 \<le> 15" by (rule word_and_le1)
  with assms have "x \<le> 15" by simp
  then have "unat x \<le> 15" by (simp add: word_le_nat_alt)
  then have "unat x \<in> {0, 1, 2, 3, 4, 5, 6, 7, 8, 9, 10, 11, 12, 13, 14, 15}"
    by simp arith
  then show ?thesis by (auto simp: word_unat_eq_iff)
qed

lemma clr_slot_values:
  "clr_slot 0 = 0" "clr_slot 1 = 1" "clr_slot 2 = 1" "clr_slot 3 = 1" "clr_slot 4 = 1"
  "clr_slot 5 = 1" "clr_slot 6 = 1" "clr_slot 7 = 1" "clr_slot 8 = 1" "clr_slot 9 = 3"
  "clr_slot 10 = 5" "clr_slot 11 = 3" "clr_slot 12 = 1" "clr_slot 13 = 3" "clr_slot 14 = 4"
  "clr_slot 15 = 5"
  by (simp_all add: clr_slot_def block_index_def Microprg_def control_lines)

lemma clr_slot_le:
  assumes "Register_ok oprReg_cfg (oprReg s)"
  shows "clr_slot (oprReg s) \<le> 5"
  using word_le_15_cases [of "oprReg s"] assms
  by (auto simp: clr_slot_values Register_ok_def oprReg_cfg_def)

lemma word_3_8_cases:
  fixes x :: WORD
  assumes "2 < uint x" and "uint x \<le> 8"
  shows "x \<in> {3, 4, 5, 6, 7, 8}"
proof -
  from assms have "uint x \<in> {3, 4, 5, 6, 7, 8}" by simp arith
  then show ?thesis by (auto simp: word_uint_eq_iff)
qed

lemma exec_decode:
  assumes o: "Register_ok oprReg_cfg (oprReg s)"
    and "2 < uint (sReg s)" and "uint (sReg s) - 3 \<le> clr_slot (oprReg s)"
  shows "\<exists>w. decoded_word s = Some w \<and> w AND gBus_mInMask \<noteq> GPR_OP \<and>
           (uint (sReg s) - 3 = clr_slot (oprReg s) \<longrightarrow> w AND CLRSC \<noteq> 0 \<or> w AND HLT \<noteq> 0)"
proof -
  from assms clr_slot_le [OF o] have "sReg s \<in> {3, 4, 5, 6, 7, 8}"
    by (intro word_3_8_cases) simp_all
  moreover from o have "oprReg s \<in> {0, 1, 2, 3, 4, 5, 6, 7, 8, 9, 10, 11, 12, 13, 14, 15}"
    by (intro word_le_15_cases) (simp add: Register_ok_def oprReg_cfg_def)
  ultimately show ?thesis
    using assms(3)
    apply safe
    apply (simp_all add: clr_slot_values)
    apply (simp_all add: decoded_word_def decode_index_def mMicrocode_def Microprg_def Let_def
      control_lines gBus_mInMask_def)
    done
qed


lemma exec_index:
  assumes o: "Register_ok oprReg_cfg (oprReg s)"
    and "2 < uint (sReg s)" and "uint (sReg s) - 3 \<le> clr_slot (oprReg s)"
  shows "decode_index s =
           uint (ucast (oprReg s) :: BYTE) * 8
           + (if (ucast (oprReg s) :: BYTE) = 0 then 128 else 0)
           + (uint (sReg s) - 3) \<and>
         0 \<le> decode_index s \<and> decode_index s \<le> 135 \<and>
         ((ucast (oprReg s) :: BYTE) = 0 \<longrightarrow> 128 \<le> decode_index s) \<and>
         uint (sReg s) - 3 \<le> 5"
proof -
  from assms clr_slot_le [OF o] have "sReg s \<in> {3, 4, 5, 6, 7, 8}"
    by (intro word_3_8_cases) simp_all
  moreover from o have "oprReg s \<in> {0, 1, 2, 3, 4, 5, 6, 7, 8, 9, 10, 11, 12, 13, 14, 15}"
    by (intro word_le_15_cases) (simp add: Register_ok_def oprReg_cfg_def)
  ultimately show ?thesis
    using assms(3)
    apply safe
    apply (simp_all add: clr_slot_values)
    apply (simp_all add: decode_index_def Let_def)
    done
qed

lemma word_le_2_cases:
  fixes x :: WORD
  assumes "uint x \<le> 2"
  shows "x \<in> {0, 1, 2}"
proof -
  from assms have "x \<le> 2" by (simp add: word_le_def)
  then have "unat x \<le> 2" by (simp add: word_le_nat_alt)
  then have "unat x \<in> {0, 1, 2}" by simp arith
  then show ?thesis by (auto simp: word_unat_eq_iff)
qed

lemma fetch_decode:
  assumes "uint (sReg s) \<le> 2"
  shows "\<exists>w. decoded_word s = Some w \<and> w AND CLRSC = 0 \<and> w AND HLT = 0 \<and>
           (sReg s \<noteq> 2 \<longrightarrow> w AND gBus_mInMask \<noteq> GPR_OP)"
  using word_le_2_cases [OF assms]
  apply safe
  apply (simp_all add: decoded_word_def decode_index_def mMicrocode_def Microprg_def Let_def
        control_lines gBus_mInMask_def)
  done

lemma Computer_HighLevel_frame:
  assumes "Computer_HighLevel s = Inr t"
  shows "sReg t = sReg s" "pcReg t = pcReg s" "accReg t = accReg s" "gprReg t = gprReg s"
    "flgReg t = flgReg s" "oprReg t = oprReg s" "marReg t = marReg s"
    "mCtrlLines t = mCtrlLines s" "ram_mStore t = ram_mStore s"
  using assms
  by (auto simp: Computer_HighLevel_def Memory_HighLevel_def Adder_HighLevel_def Let_def
      split: if_splits)

lemma Computer_LowLevel_frame:
  assumes "Computer_LowLevel s = Inr t"
  shows "sReg t = sReg s" "accReg t = accReg s" "flgReg t = flgReg s" "oprReg t = oprReg s"
    "mCtrlLines t = mCtrlLines s" "mBusLines t = mBusLines s" "alu_mStore t = alu_mStore s"
  using assms
  by (auto simp: Computer_LowLevel_def Memory_LowLevel_def Let_def Register_LowLevel_def
      register_cfgs split: if_splits)

lemma Computer_FallingEdge_sReg:
  "sReg (Computer_FallingEdge s) = (sReg s + 1) AND 0x000f"
  by (simp add: Computer_FallingEdge_def Let_def Adder_FallingEdge_frame
      GprBus_FallingEdge_frame Register_FallingEdge_def Register_Increment_def sReg_cfg_def)

lemma Computer_FallingEdge_oprReg:
  "mCtrlLines s AND gBus_mInMask \<noteq> GPR_OP \<Longrightarrow> oprReg (Computer_FallingEdge s) = oprReg s"
  by (simp add: Computer_FallingEdge_def Let_def Adder_FallingEdge_frame
      GprBus_FallingEdge_cases Register_FallingEdge_def oprReg_cfg_def)

lemma phases_sReg:
  assumes "Computer_phases s = Inr t"
  shows "sReg t = (sReg s + 1) AND 0x000f"
  using assms
  by (auto simp: Computer_phases_def Computer_FallingEdge_sReg
      dest!: Computer_LowLevel_frame(1) Computer_HighLevel_frame(1) split: sum.splits)

lemma phases_oprReg:
  assumes "Computer_phases s = Inr t" and "mCtrlLines s AND gBus_mInMask \<noteq> GPR_OP"
  shows "oprReg t = oprReg s"
proof -
  from assms(1) obtain s2 where h: "Computer_HighLevel s = Inr s2"
    and l: "Computer_LowLevel (Computer_FallingEdge s2) = Inr t"
    by (auto simp: Computer_phases_def split: sum.splits)
  from Computer_HighLevel_frame [OF h] assms(2)
  have "oprReg (Computer_FallingEdge s2) = oprReg s"
    by (simp add: Computer_FallingEdge_oprReg)
  with Computer_LowLevel_frame [OF l] show ?thesis by simp
qed

lemma Register_ok_simps:
  "Register_ok r Register_Reset" "Register_ok r (Register_Set r d)"
  "Register_ok r (Register_Increment r v)"
  "Register_ok r v \<Longrightarrow> Register_ok r (Register_FallingEdge r c v)"
  "Register_ok r v \<Longrightarrow> Register_ok r (Register_LowLevel r c b v)"
  by (simp_all add: Register_ok_def register_ops)

lemma Registers_ok_GprBus:
  "Registers_ok s \<Longrightarrow> Registers_ok (GprBus_FallingEdge s)"
  by (simp add: Registers_ok_def GprBus_FallingEdge_cases Let_def Register_ok_simps)

lemma Registers_ok_Adder:
  "Registers_ok s \<Longrightarrow> Registers_ok (Adder_FallingEdge s)"
  by (simp add: Registers_ok_def Adder_FallingEdge_cases RolAcc_def RorAcc_def Let_def
      Register_ok_simps)

lemma Registers_ok_FallingEdge:
  "Registers_ok s \<Longrightarrow> Registers_ok (Computer_FallingEdge s)"
  unfolding Computer_FallingEdge_def Let_def
  by (intro Registers_ok_Adder Registers_ok_GprBus) (simp add: Registers_ok_def Register_ok_simps)

lemma Registers_ok_HighLevel:
  "Registers_ok s \<Longrightarrow> Computer_HighLevel s = Inr t \<Longrightarrow> Registers_ok t"
  by (simp add: Registers_ok_def Computer_HighLevel_frame)

lemma Registers_ok_LowLevel:
  "Registers_ok s \<Longrightarrow> Computer_LowLevel s = Inr t \<Longrightarrow> Registers_ok t"
  by (auto simp: Registers_ok_def Computer_LowLevel_def Memory_LowLevel_def Let_def
      Register_ok_simps split: if_splits)

lemma Registers_ok_phases:
  "Registers_ok s \<Longrightarrow> Computer_phases s = Inr t \<Longrightarrow> Registers_ok t"
  by (auto simp: Computer_phases_def split: sum.splits
      intro: Registers_ok_LowLevel Registers_ok_FallingEdge Registers_ok_HighLevel)

lemma Registers_ok_RisingEdge:
  "Registers_ok s \<Longrightarrow> Control_RisingEdge s = Running t \<Longrightarrow> Registers_ok t"
  by (auto elim!: Control_RisingEdge_Running simp: Registers_ok_def Register_ok_simps)

lemma Computer_tick_Running:
  assumes "Computer_tick s = Running t"
  obtains s1 where "Control_RisingEdge s = Running s1" "Computer_phases s1 = Inr t"
  using assms by (auto simp: Computer_tick_def split: outcome.splits sum.splits)

lemma clr_slot_nonneg: "0 \<le> clr_slot op"
  by (simp add: clr_slot_def)

lemma Computer_inv_tick:
  assumes inv: "Computer_inv s" and tick: "Computer_tick s = Running t"
  shows "Computer_inv t"
proof -
  from tick obtain s1 where r: "Control_RisingEdge s = Running s1"
    and p: "Computer_phases s1 = Inr t"
    by (rule Computer_tick_Running)
  from inv have ok: "Registers_ok s" by (simp add: Computer_inv_def)
  then have ok1: "Registers_ok s1" using r by (rule Registers_ok_RisingEdge)
  then have okt: "Registers_ok t" using p by (rule Registers_ok_phases)
  have st: "sReg t = (sReg s1 + 1) AND 0x000f" using p by (rule phases_sReg)
  have "uint (sReg t) \<le> 2 \<or> uint (sReg t) - 3 \<le> clr_slot (oprReg t)"
    using r
  proof (cases rule: Control_RisingEdge_Running)
    case (2 w)
    then show ?thesis by (simp add: st Register_Reset_def)
  next
    case (1 w)
    then have s1: "sReg s1 = sReg s" "oprReg s1 = oprReg s" "mCtrlLines s1 = w" by simp_all
    from r 1 have nh: "w AND HLT = 0"
      by (auto simp: Control_RisingEdge_def Let_def split: if_splits)
    show ?thesis
    proof (cases "uint (sReg s) \<le> 2")
      case True
      then have "sReg s \<in> {0, 1, 2}" by (rule word_le_2_cases)
      then show ?thesis
        using clr_slot_nonneg [of "oprReg t"] by (auto simp: st s1)
    next
      case False
      with inv have b: "2 < uint (sReg s)" "uint (sReg s) - 3 \<le> clr_slot (oprReg s)"
        and o: "Register_ok oprReg_cfg (oprReg s)"
        by (simp_all add: Computer_inv_def Registers_ok_def)
      from exec_decode [OF o b] 1 nh b(2)
      have g: "w AND gBus_mInMask \<noteq> GPR_OP" and lt: "uint (sReg s) - 3 < clr_slot (oprReg s)"
        by auto
      from p g have op: "oprReg t = oprReg s" by (simp add: phases_oprReg s1)
      from b lt clr_slot_le [OF o] have "sReg s \<in> {3, 4, 5, 6, 7, 8}"
        by (intro word_3_8_cases) simp_all
      then show ?thesis using lt by (auto simp: st s1 op)
    qed
  qed
  with okt show ?thesis by (simp add: Computer_inv_def)
qed

lemma Computer_inv_Reset: "Computer_inv (Computer_Reset s)"
  by (simp add: Computer_inv_def Registers_ok_def Computer_Reset_def Register_ok_simps)
    (simp add: Register_Reset_def)

lemma Computer_reachable_inv: "Computer_reachable s \<Longrightarrow> Computer_inv s"
  by (induction rule: Computer_reachable.induct) (auto intro: Computer_inv_Reset Computer_inv_tick)

section \<open>Running the machine\<close>

lemma Computer_run_numeral:
  "Computer_run (numeral k) s =
     (case Computer_tick s of
        Running t \<Rightarrow> Computer_run (pred_numeral k) t
      | Halted t \<Rightarrow> Halted t
      | Crashed e \<Rightarrow> Crashed e)"
  by (simp add: numeral_eq_Suc)

lemma Computer_watch_numeral:
  "Computer_watch f (numeral k) s =
     f s # (case Computer_tick s of
              Running t \<Rightarrow> Computer_watch f (pred_numeral k) t
            | Halted t \<Rightarrow> []
            | Crashed e \<Rightarrow> [])"
  by (simp add: numeral_eq_Suc)

lemma Computer_run_reachable:
  "Computer_reachable s \<Longrightarrow> Computer_run n s = Running t \<Longrightarrow> Computer_reachable t"
proof (induction n arbitrary: s)
  case 0
  then show ?case by simp
next
  case (Suc n)
  then show ?case
    by (auto split: outcome.splits intro: Computer_reachable.tick)
qed

lemma Computer_run_Halted_fuel:
  "Computer_run n s = Halted t \<Longrightarrow> Computer_run (n + k) s = Halted t"
proof (induction n arbitrary: s)
  case 0
  then show ?case by simp
next
  case (Suc n)
  then show ?case by (auto split: outcome.splits)
qed

lemma Computer_boot_reachable: "Computer_reachable (Computer_boot s)"
  unfolding Computer_boot_def by (rule Computer_reachable.reset)

lemmas run_defs = exec_defs Computer_run_numeral Computer_boot_def Computer_Reset_def prg_def
  Microprg_def blank_def

lemma boot4_run: "Computer_run 4 (Computer_boot blank) = Running boot4"
  by (simp add: run_defs boot4_def)

lemma boot4_reachable: "Computer_reachable boot4"
  using Computer_boot_reachable boot4_run by (rule Computer_run_reachable)

lemma boot5_tick: "Computer_tick boot4 = Running boot5"
  by (simp add: run_defs boot4_def boot5_def)


lemma phases_no_memory:
  assumes "mCtrlLines s AND M_GPR = 0" and "mCtrlLines s AND GPR_M = 0"
  shows "\<exists>t. Computer_phases s = Inr t"
proof -
  from assms(1) obtain s2 where h: "Computer_HighLevel s = Inr s2"
    by (simp add: Computer_HighLevel_def Memory_HighLevel_def Adder_HighLevel_def Let_def
        ram_mOutMask_def)
  from Computer_HighLevel_frame(8) [OF h] assms(2)
  have "\<exists>t. Computer_LowLevel (Computer_FallingEdge s2) = Inr t"
    by (simp add: Computer_LowLevel_def Memory_LowLevel_def Let_def ram_mInMask_def
        Computer_FallingEdge_frame)
  with h show ?thesis by (simp add: Computer_phases_def)
qed


lemma halt3_run: "Computer_run 3 (Computer_Reset blank) = Running halt3"
  by (simp add: run_defs halt3_def)

lemma halt3_reachable: "Computer_reachable halt3"
  using Computer_reachable.reset halt3_run by (rule Computer_run_reachable)

lemma Computer_watch_map: "Computer_watch (h \<circ> f) n s = map h (Computer_watch f n s)"
  by (induction n arbitrary: s) (auto split: outcome.splits)

lemma boot_run_178:
  "\<exists>t. Computer_run 178 (Computer_boot s) = Halted t \<and> mCtrlLines t = HLT \<and>
        oprReg t = 0 \<and> pcReg t = 7 \<and> accReg t = 36 \<and>
        ram_mStore t ! 7 = 36 \<and> ram_mStore t ! 9 = 0"
  by (cases s) (simp add: run_defs)

lemma boot_watch_178:
  "\<exists>xs. Computer_watch (\<lambda>u. (ram_mStore u ! 9, accReg u)) 178 (Computer_boot s) = xs \<and>
         remdups_adj (map fst xs) = [0x0FFA, 0x0FFB, 0x0FFC, 0x0FFD, 0x0FFE, 0x0FFF, 0] \<and>
         remdups_adj (map snd xs) = [0, 1, 4, 9, 16, 25, 36]"
  by (cases s) (simp add: run_defs Computer_watch_numeral)


section \<open>Register width\<close>

text \<open>
  Claim C10. For every register, whatever its masks: the stored value has no bit outside
  the width mask after \<open>Reset\<close>, after \<open>Set\<close>, after \<open>Increment\<close>, and the compute
  phase (\<open>FallingEdge\<close>) and the latch phase (\<open>LowLevel\<close>) keep it so. The drive phase
  (\<open>HighLevel\<close>) leaves the stored value alone and applies no mask, so when the register
  drives, the value it puts on the data bus is the stored one and is within the width.
  In the machine, where the transfer unit and the adder also write registers through
  \<open>Set\<close> and \<open>Reset\<close>, all seven registers are within their widths in every reachable
  state.
\<close>

theorem C10_register_width_invariant:
  "Register_ok r Register_Reset \<and>
   Register_ok r (Register_Set r d) \<and>
   Register_ok r (Register_Increment r v) \<and>
   (Register_ok r v \<longrightarrow> Register_ok r (Register_FallingEdge r c v)) \<and>
   (Register_ok r v \<longrightarrow> Register_ok r (Register_LowLevel r c b v)) \<and>
   (c AND mOutMask r \<noteq> 0 \<longrightarrow> Register_HighLevel r c v b = v) \<and>
   (Register_ok r v \<and> c AND mOutMask r \<noteq> 0 \<longrightarrow>
      Register_ok r (Register_HighLevel r c v b)) \<and>
   (Computer_reachable s \<longrightarrow> Registers_ok s)"
proof -
  have drive: "Register_HighLevel r c v b = v" if "c AND mOutMask r \<noteq> 0"
    using that by (simp add: Register_HighLevel_def)
  have "Registers_ok s" if "Computer_reachable s"
    using Computer_reachable_inv [OF that] by (simp add: Computer_inv_def)
  with drive show ?thesis
    by (simp add: Register_ok_simps)
qed

theorem C10_register_width_invariant_witness:
  "Register_ok pcReg_cfg 0x00fe \<and>
   PC_MAR AND mOutMask pcReg_cfg \<noteq> 0 \<and>
   Register_ok pcReg_cfg (Register_FallingEdge pcReg_cfg PC_MAR 0x00fe) \<and>
   Register_ok pcReg_cfg (Register_LowLevel pcReg_cfg PC_MAR 0x0abc 0x00fe) \<and>
   Register_HighLevel pcReg_cfg PC_MAR 0x00fe 0x0abc = 0x00fe \<and>
   Register_ok pcReg_cfg (Register_HighLevel pcReg_cfg PC_MAR 0x00fe 0x0abc) \<and>
   Computer_reachable boot4 \<and> Registers_ok boot4"
proof -
  have ok: "Register_ok pcReg_cfg 0x00fe"
    by (simp add: Register_ok_def pcReg_cfg_def)
  have drv: "PC_MAR AND mOutMask pcReg_cfg \<noteq> 0"
    by (simp add: pcReg_cfg_def control_lines)
  from ok drv boot4_reachable
    C10_register_width_invariant [of pcReg_cfg _ "0x00fe" PC_MAR "0x0abc" boot4]
  show ?thesis by blast
qed

section \<open>The microcode index\<close>

text \<open>
  Claim C3. In every reachable state the decode phase reads the control word at this
  index of the table: the step counter itself while it is at most 2; otherwise
  \<open>opcode * 8 + haltRedirect + (stepCounter - 3)\<close>, where \<open>opcode\<close> is the low byte of
  the operation register and \<open>haltRedirect\<close> is 128 when the opcode is 0 and 0 otherwise,
  so that the lookups of the halt opcode fall in 128..135. The bitwise-or combination
  of the source (\<open>decode_index\<close>) equals this sum, and the index is within 0..135, so
  the read is inside the table.
\<close>

theorem C3_decode_index:
  assumes "Computer_reachable s"
  shows "(uint (sReg s) \<le> 2 \<longrightarrow> decode_index s = uint (sReg s)) \<and>
         (2 < uint (sReg s) \<longrightarrow>
            decode_index s =
              uint (ucast (oprReg s) :: BYTE) * 8
              + (if (ucast (oprReg s) :: BYTE) = 0 then 128 else 0)
              + (uint (sReg s) - 3)) \<and>
         (2 < uint (sReg s) \<and> (ucast (oprReg s) :: BYTE) = 0 \<longrightarrow>
            128 \<le> decode_index s \<and> decode_index s \<le> 135) \<and>
         0 \<le> decode_index s \<and> decode_index s \<le> 135 \<and>
         mMicrocode (decode_index s) = Some (Microprg ! nat (decode_index s))"
proof (cases "uint (sReg s) \<le> 2")
  case True
  then show ?thesis by (simp add: decode_index_def mMicrocode_def)
next
  case False
  from assms have "Computer_inv s" by (rule Computer_reachable_inv)
  with False have b: "2 < uint (sReg s)" "uint (sReg s) - 3 \<le> clr_slot (oprReg s)"
    and o: "Register_ok oprReg_cfg (oprReg s)"
    by (simp_all add: Computer_inv_def Registers_ok_def)
  from exec_index [OF o b] b(1) show ?thesis by (simp add: mMicrocode_def)
qed


theorem C3_decode_index_witness:
  "Computer_reachable boot4 \<and> uint (sReg boot4) = 4 \<and> decode_index boot4 = 9 \<and>
   mMicrocode (decode_index boot4) = Some CLRSC \<and>
   Computer_reachable halt3 \<and> uint (sReg halt3) = 3 \<and> (ucast (oprReg halt3) :: BYTE) = 0 \<and>
   decode_index halt3 = 128 \<and> mMicrocode (decode_index halt3) = Some HLT"
proof -
  have a: "uint (sReg boot4) = 4" "(ucast (oprReg boot4) :: BYTE) = 1"
    by (simp_all add: boot4_def)
  have b: "uint (sReg halt3) = 3" "(ucast (oprReg halt3) :: BYTE) = 0"
    by (simp_all add: halt3_def blank_def)
  from C3_decode_index [OF boot4_reachable] a have x: "decode_index boot4 = 9"
    by simp
  from C3_decode_index [OF halt3_reachable] b have y: "decode_index halt3 = 128"
    by simp
  have "mMicrocode 9 = Some CLRSC" "mMicrocode 128 = Some HLT"
    by (simp_all add: mMicrocode_def Microprg_def control_lines)
  with x y a b boot4_reachable halt3_reachable show ?thesis by simp
qed

section \<open>The step counter\<close>

text \<open>
  Claim C6, as the code has it. In every reachable state the step counter is at most 8,
  so during execute \<open>stepCounter - 3\<close> lies in 0..7. When the decoded control word
  asserts \<open>CLRSC\<close>, the decode phase resets the step counter to zero at once and the
  control word emitted for that tick is the first entry of the fetch block; the
  always-counting step register then increments in the compute phase of that same
  tick, so at the end of the tick, one tick after the assertion, the step counter is 1
  (the clearing tick has served as fetch step 0).
\<close>

theorem C6_step_counter:
  "(Computer_reachable s \<longrightarrow>
      uint (sReg s) \<le> 8 \<and>
      (2 < uint (sReg s) \<longrightarrow> 0 \<le> uint (sReg s) - 3 \<and> uint (sReg s) - 3 \<le> 7)) \<and>
   (decoded_word s = Some w \<and> w AND CLRSC \<noteq> 0 \<longrightarrow>
      Control_RisingEdge s = Running (s\<lparr>sReg := 0, mCtrlLines := Microprg ! 0\<rparr>) \<and>
      (\<exists>t. Computer_tick s = Running t \<and> sReg t = 1))"
proof (intro conjI impI)
  assume "Computer_reachable s"
  then have inv: "Computer_inv s" by (rule Computer_reachable_inv)
  show "uint (sReg s) \<le> 8"
  proof (cases "uint (sReg s) \<le> 2")
    case True
    then show ?thesis by simp
  next
    case False
    with inv have b: "2 < uint (sReg s)" "uint (sReg s) - 3 \<le> clr_slot (oprReg s)"
      and o: "Register_ok oprReg_cfg (oprReg s)"
      by (simp_all add: Computer_inv_def Registers_ok_def)
    from exec_index [OF o b] show ?thesis by simp
  qed
  then show "0 \<le> uint (sReg s) - 3" "uint (sReg s) - 3 \<le> 7" if "2 < uint (sReg s)"
    using that by simp_all
next
  assume a: "decoded_word s = Some w \<and> w AND CLRSC \<noteq> 0"
  let ?s1 = "s\<lparr>sReg := 0, mCtrlLines := Microprg ! 0\<rparr>"
  from a show r: "Control_RisingEdge s = Running ?s1"
    by (simp add: Control_RisingEdge_def Let_def Register_Reset_def)
      (simp add: Microprg_0 control_lines)
  have "\<exists>t. Computer_phases ?s1 = Inr t"
    by (rule phases_no_memory) (simp_all add: Microprg_0, simp_all add: control_lines)
  then obtain t where p: "Computer_phases ?s1 = Inr t" ..
  from phases_sReg [OF p] have "sReg t = 1" by simp
  with r p show "\<exists>t. Computer_tick s = Running t \<and> sReg t = 1"
    by (simp add: Computer_tick_def)
qed


theorem C6_step_counter_witness:
  "Computer_reachable boot4 \<and> uint (sReg boot4) = 4 \<and>
   decoded_word boot4 = Some CLRSC \<and> CLRSC AND CLRSC \<noteq> 0 \<and>
   Control_RisingEdge boot4 = Running (boot4\<lparr>sReg := 0, mCtrlLines := Microprg ! 0\<rparr>) \<and>
   (\<exists>t. Computer_tick boot4 = Running t \<and> sReg t = 1)"
proof -
  have d: "decoded_word boot4 = Some CLRSC"
    by (simp add: run_defs boot4_def)
  have c: "CLRSC AND CLRSC \<noteq> 0" by (simp add: CLRSC_def)
  have u: "uint (sReg boot4) = 4" by (simp add: boot4_def)
  from C6_step_counter [of boot4 CLRSC] boot4_reachable d c u show ?thesis by simp
qed

text \<open>
  The claim as stated asks for a step counter of 0 one tick after \<open>CLRSC\<close> is asserted.
  In the default program the fifth tick asserts \<open>CLRSC\<close> (second execute step of the
  first instruction), and the state it leaves has step counter 1.
\<close>

theorem C6_step_counter_counterexample:
  "Computer_run 4 (Computer_boot blank) = Running boot4 \<and>
   decoded_word boot4 = Some CLRSC \<and> CLRSC AND CLRSC \<noteq> 0 \<and>
   Computer_tick boot4 = Running boot5 \<and> sReg boot5 \<noteq> 0"
proof -
  have "decoded_word boot4 = Some CLRSC"
    by (simp add: run_defs boot4_def)
  moreover have "sReg boot5 \<noteq> 0" by (simp add: boot5_def)
  moreover have "CLRSC AND CLRSC \<noteq> 0" by (simp add: CLRSC_def)
  ultimately show ?thesis using boot4_run boot5_tick by simp
qed


section \<open>Memory bounds\<close>


section \<open>The default program\<close>

text \<open>
  Claim C1. From the state the constructor leaves (the default memory image, registers
  reset; whatever the other cells held), the run halts at the 178th tick through the
  halt word, whatever number of ticks beyond 178 is allowed, with memory cell 7
  holding 36 and the accumulator 36. Cell 9 starts at
  \<open>0xFFA\<close> and goes through \<open>0xFFB\<close>, ..., \<open>0xFFF\<close> to 0: six increments, one for each
  pass of the loop; the accumulator goes through the six partial sums 1, 4, 9, 16, 25,
  36.
\<close>

theorem C1_default_program:
  "(\<exists>t. (\<forall>k. Computer_run (178 + k) (Computer_boot s) = Halted t) \<and> mCtrlLines t = HLT \<and>
        oprReg t = 0 \<and> accReg t = 36 \<and> ram_mStore t ! 7 = 36 \<and> ram_mStore t ! 9 = 0) \<and>
   ram_mStore (Computer_boot s) ! 9 = 0x0FFA \<and>
   remdups_adj (Computer_watch (\<lambda>u. ram_mStore u ! 9) 178 (Computer_boot s))
     = [0x0FFA, 0x0FFB, 0x0FFC, 0x0FFD, 0x0FFE, 0x0FFF, 0] \<and>
   remdups_adj (Computer_watch accReg 178 (Computer_boot s)) = [0, 1, 4, 9, 16, 25, 36]"
proof -
  let ?f = "\<lambda>u. (ram_mStore u ! 9, accReg u)"
  have f: "(\<lambda>u. ram_mStore u ! 9) = fst \<circ> ?f" and g: "accReg = snd \<circ> ?f"
    by (simp_all add: fun_eq_iff)
  have w: "Computer_watch (\<lambda>u. ram_mStore u ! 9) 178 (Computer_boot s)
             = map fst (Computer_watch ?f 178 (Computer_boot s))"
    by (subst f) (rule Computer_watch_map)
  have v: "Computer_watch accReg 178 (Computer_boot s)
             = map snd (Computer_watch ?f 178 (Computer_boot s))"
    by (subst g) (rule Computer_watch_map)
  have i: "ram_mStore (Computer_boot s) ! 9 = 0x0FFA"
    by (simp add: Computer_boot_def Computer_Reset_def prg_def)
  from boot_run_178 [of s] obtain t where
    t: "Computer_run 178 (Computer_boot s) = Halted t" "mCtrlLines t = HLT" "oprReg t = 0"
      "accReg t = 36" "ram_mStore t ! 7 = 36" "ram_mStore t ! 9 = 0"
    by blast
  from t(1) have "\<forall>k. Computer_run (178 + k) (Computer_boot s) = Halted t"
    by (simp add: Computer_run_Halted_fuel)
  with t boot_watch_178 [of s] i show ?thesis
    unfolding w v by blast
qed

end
